theory Spec2Isabelle
  imports Main
begin

section \<open>Resource.Controller: data model\<close>

text \<open>
  The embedding follows \<^verbatim>\<open>src/plugins/Resource/Resource.Controller.js\<close>.

  Resources are JavaScript objects that the controller receives by reference, stores in
  its registries and mutates in place. They are therefore kept in an explicit store
  (\<open>heap\<close>, from addresses to objects) and the registries hold addresses.

  \<open>this.resources\<close> and \<open>this.resourcesInUse\<close> are indexed by values of the
  enumeration \<open>Resource.Type\<close> and are maps from these; the values of the enumeration
  are taken not to name a property of \<open>Object.prototype\<close>. A type bucket is indexed by
  resource names, which are arbitrary strings, and is modelled with its prototype (see
  \<open>bucket\<close> below). Numbers are unbounded integers.

  Calls that leave the controller (\<open>console.warn\<close>, the channel's \<open>emit\<close>,
  \<open>meta.engine.onResourcesLoaded\<close>, a resource's \<open>forceLoad\<close>) are recorded, in
  order, in \<open>trace\<close>.
\<close>

type_synonym addr = nat

text \<open>
  Modelled from the spec: the enumeration \<open>Resource.Type\<close> is declared outside the
  source file; the spec describes it as an open-ended set of categories with texture and
  sound among them.
\<close>

datatype rtype = TEXTURE | SOUND | OTHER nat

text \<open>
  The fields of a resource that the controller reads or writes. \<open>path\<close> is \<open>None\<close>
  when the property is absent.
\<close>

record resource =
  type :: rtype
  name :: string
  path :: "string option"
  isLoading :: bool
  inUse :: bool

text \<open>
  A type bucket is created by the object literal \<open>{}\<close> (line 66), so its prototype is
  \<open>Object.prototype\<close>, and \<open>subBuffer[n]\<close> reads an own property of the bucket or,
  when there is none, the property of that name which the bucket inherits.
  \<open>objectPrototypeKeys\<close> lists the property names of \<open>Object.prototype\<close> (the
  language standard with its annex for browsers); all of them hold a function or, for
  \<open>__proto__\<close>, yield the prototype object, so each reads as a truthy value.

  In a bucket, \<open>own\<close> maps the names of the own properties to their values, which are
  \<open>null\<close> (\<open>None\<close>, what \<open>remove\<close> writes) or a resource; \<open>proto\<close> tells whether
  the prototype is still \<open>Object.prototype\<close>: assigning \<open>null\<close> through the inherited
  accessor \<open>__proto__\<close> detaches it.
\<close>

definition objectPrototypeKeys :: "string list" where
  "objectPrototypeKeys =
     [''constructor'', ''hasOwnProperty'', ''isPrototypeOf'', ''propertyIsEnumerable'',
      ''toLocaleString'', ''toString'', ''valueOf'', ''__proto__'',
      ''__defineGetter__'', ''__defineSetter__'', ''__lookupGetter__'', ''__lookupSetter__'']"

record bucket =
  own :: "string \<rightharpoonup> addr option"
  proto :: bool

text \<open>The object literal \<open>{}\<close>.\<close>

definition emptyBucket :: bucket where
  "emptyBucket = \<lparr> own = Map.empty, proto = True \<rparr>"

text \<open>
  What reading a property of a bucket yields: \<open>undefined\<close>, \<open>null\<close>, a resource, or
  the value that \<open>Object.prototype\<close> holds under the name read.
\<close>

datatype jsval = Undefined | Null | Resource addr | Inherited string

definition getProp :: "bucket \<Rightarrow> string \<Rightarrow> jsval" where
  "getProp b n =
     (case own b n of
        Some None \<Rightarrow> Null
      | Some (Some a) \<Rightarrow> Resource a
      | None \<Rightarrow> if proto b \<and> n \<in> set objectPrototypeKeys then Inherited n else Undefined)"

text \<open>
  \<open>putNull b n\<close> is the assignment \<open>b[n] = null\<close>: it writes an own property, except
  that the name \<open>__proto__\<close>, when it is reached through the inherited accessor, sets
  the prototype of the bucket to \<open>null\<close>.
\<close>

definition putNull :: "bucket \<Rightarrow> string \<Rightarrow> bucket" where
  "putNull b n =
     (if own b n = None \<and> proto b \<and> n = ''__proto__'' then b\<lparr>proto := False\<rparr>
      else b\<lparr>own := (own b)(n \<mapsto> None)\<rparr>)"

text \<open>Truthiness: a resource and an inherited function or object are truthy.\<close>

fun truthy :: "jsval \<Rightarrow> bool" where
  "truthy (Resource a) = True"
| "truthy (Inherited n) = True"
| "truthy _ = False"

text \<open>The two flags of \<open>meta.engine\<close> that the controller reads.\<close>

record engine =
  engine_isReady :: bool
  engine_isLoading :: bool

datatype effect =
    ConsoleWarn string
  | EmitAdded addr
  | EmitAllLoaded
  | OnResourcesLoaded
  | ForceLoad addr bool

record state =
  heap :: "addr \<Rightarrow> resource"
  resources :: "rtype \<rightharpoonup> bucket"
  resourcesInUse :: "rtype \<rightharpoonup> addr list"
  numLoaded :: int
  numToLoad :: int
  syncQueue :: "addr list option"
  isSyncLoading :: bool
  uniqueID :: int
  trace :: "effect list"

text \<open>
  The constructor together with the prototype's defaults (source lines 22-26 and
  272-283). The canvas and audio set-up of the constructor touches no field of the
  controller and is left out.
\<close>

definition init :: "(addr \<Rightarrow> resource) \<Rightarrow> state" where
  "init h = \<lparr> heap = h, resources = Map.empty, resourcesInUse = Map.empty,
     numLoaded = 0, numToLoad = 0, syncQueue = None, isSyncLoading = False,
     uniqueID = 0, trace = [] \<rparr>"

section \<open>String primitives of JavaScript\<close>

text \<open>
  \<open>lastIndexOf s c\<close> is \<open>s.lastIndexOf(c)\<close> for a one-character search string: the
  greatest index holding \<open>c\<close>, or \<open>-1\<close>.
\<close>

fun lastIndexOf_from :: "int \<Rightarrow> string \<Rightarrow> char \<Rightarrow> int \<Rightarrow> int" where
  "lastIndexOf_from i [] c found = found"
| "lastIndexOf_from i (x # xs) c found =
     lastIndexOf_from (i + 1) xs c (if x = c then i else found)"

definition lastIndexOf :: "string \<Rightarrow> char \<Rightarrow> int" where
  "lastIndexOf s c = lastIndexOf_from 0 s c (- 1)"

text \<open>
  \<open>slice s b e\<close> is \<open>s.slice(b, e)\<close>: a negative index counts from the end, both
  indices are clamped to the string, and the result is empty when the start is not
  before the end.
\<close>

definition slice :: "string \<Rightarrow> int \<Rightarrow> int \<Rightarrow> string" where
  "slice s b e =
     (let len = int (length s);
          from = (if b < 0 then max (len + b) 0 else min b len);
          to = (if e < 0 then max (len + e) 0 else min e len);
          span = max (to - from) 0
      in take (nat span) (drop (nat from) s))"

section \<open>Type registry\<close>

text \<open>
  Lines 70-80 of \<open>add\<close>: a resource named \<open>unknown\<close> with a truthy path takes its
  name from the path.
\<close>

definition deriveName :: "resource \<Rightarrow> resource" where
  "deriveName r =
     (case path r of
        None \<Rightarrow> r
      | Some p \<Rightarrow>
          if name r = ''unknown'' \<and> p \<noteq> [] then
            (let pointIndexOf = lastIndexOf p (CHR ''.'');
                 slashIndexOf = lastIndexOf p (CHR ''/'');
                 pointIndexOf' = (if pointIndexOf < 0 then int (length p) else pointIndexOf)
             in r\<lparr>name := slice p (slashIndexOf + 1) pointIndexOf'\<rparr>)
          else r)"

text \<open>
  \<open>add\<close>, lines 62-94. The assignment of line 89 is reached only when the slot read
  falsy, that is when the name is neither an own property holding a resource nor
  inherited; it therefore never goes through the accessor \<open>__proto__\<close> and writes an
  own property.
\<close>

definition add :: "addr \<Rightarrow> state \<Rightarrow> addr option \<times> state" where
  "add a s =
     (let ty = type (heap s a);
          subBuffer = (case resources s ty of None \<Rightarrow> emptyBucket | Some b \<Rightarrow> b);
          r = deriveName (heap s a);
          s1 = s\<lparr>heap := (heap s)(a := r), resources := (resources s)(ty \<mapsto> subBuffer)\<rparr>
      in if truthy (getProp subBuffer (name r)) then
           (None, s1\<lparr>trace := trace s1 @ [ConsoleWarn ''[Resource.Manager.add]:'']\<rparr>)
         else
           (Some a,
            s1\<lparr>resources := (resources s1)
                   (ty \<mapsto> subBuffer\<lparr>own := (own subBuffer)(name r \<mapsto> Some a)\<rparr>),
               trace := trace s1 @ [EmitAdded a]\<rparr>))"

definition remove :: "addr \<Rightarrow> state \<Rightarrow> state" where
  "remove a s =
     (let r = heap s a in
      case resources s (type r) of
        None \<Rightarrow> s\<lparr>trace := trace s @ [ConsoleWarn ''[Resource.Manager.remove]:'']\<rparr>
      | Some subBuffer \<Rightarrow>
          if \<not> truthy (getProp subBuffer (name r)) then
            s\<lparr>trace := trace s @ [ConsoleWarn ''[Resource.Manager.remove]:'']\<rparr>
          else s\<lparr>resources := (resources s)(type r \<mapsto> putNull subBuffer (name r))\<rparr>)"

text \<open>
  The lookups take the name as \<open>string option\<close>: \<open>None\<close> is an absent argument, and
  \<open>!name\<close> holds for it and for the empty string. They return \<open>null\<close> or the truthy
  value read from the bucket.
\<close>

definition getTexture :: "string option \<Rightarrow> state \<Rightarrow> jsval \<times> state" where
  "getTexture nm s =
     (case nm of
        None \<Rightarrow> (Null, s\<lparr>trace := trace s @ [ConsoleWarn ''[Resource.Manager.getTexture]:'']\<rparr>)
      | Some n \<Rightarrow>
          if n = [] then
            (Null, s\<lparr>trace := trace s @ [ConsoleWarn ''[Resource.Manager.getTexture]:'']\<rparr>)
          else
            (case resources s TEXTURE of
               None \<Rightarrow> (Null, s)
             | Some subBuffer \<Rightarrow>
                 (let texture = getProp subBuffer n
                  in if \<not> truthy texture then (Null, s) else (texture, s))))"

definition getSound :: "string option \<Rightarrow> state \<Rightarrow> jsval \<times> state" where
  "getSound nm s =
     (case nm of
        None \<Rightarrow> (Null, s\<lparr>trace := trace s @ [ConsoleWarn ''[Resource.Manager.getSound]:'']\<rparr>)
      | Some n \<Rightarrow>
          if n = [] then
            (Null, s\<lparr>trace := trace s @ [ConsoleWarn ''[Resource.Manager.getSound]:'']\<rparr>)
          else
            (case resources s SOUND of
               None \<Rightarrow> (Null, s)
             | Some subBuffer \<Rightarrow>
                 (let sound = getProp subBuffer n
                  in if \<not> truthy sound then (Null, s) else (sound, s))))"

section \<open>Load accounting\<close>

definition addToLoad :: "engine \<Rightarrow> addr \<Rightarrow> state \<Rightarrow> state" where
  "addToLoad e a s =
     (let s1 = s\<lparr>heap := (heap s)(a := (heap s a)\<lparr>isLoading := True\<rparr>)\<rparr>
      in if \<not> engine_isReady e then s1\<lparr>numToLoad := numToLoad s1 + 1\<rparr> else s1)"

definition loadSuccess :: "engine \<Rightarrow> addr \<Rightarrow> state \<Rightarrow> state" where
  "loadSuccess e a s =
     (let ty = type (heap s a);
          subBuffer = (case resourcesInUse s ty of None \<Rightarrow> [] | Some b \<Rightarrow> b);
          s1 = s\<lparr>resourcesInUse := (resourcesInUse s)(ty \<mapsto> subBuffer @ [a]),
                 heap := (heap s)(a := (heap s a)\<lparr>isLoading := False, inUse := True\<rparr>)\<rparr>
      in if \<not> engine_isReady e then
           (let s2 = s1\<lparr>numToLoad := numToLoad s1 - 1, numLoaded := numLoaded s1 + 1\<rparr>
            in if numToLoad s2 = 0 \<and> \<not> engine_isLoading e then
                 s2\<lparr>trace := trace s2 @ [OnResourcesLoaded, EmitAllLoaded]\<rparr>
               else s2)
         else s1)"

definition loadFailed :: "engine \<Rightarrow> addr \<Rightarrow> state \<Rightarrow> state" where
  "loadFailed e a s =
     (let s1 = s\<lparr>heap := (heap s)(a := (heap s a)\<lparr>isLoading := False\<rparr>)\<rparr>
      in if \<not> engine_isReady e then
           (let s2 = s1\<lparr>numToLoad := numToLoad s1 - 1\<rparr>
            in if numToLoad s2 = 0 \<and> \<not> engine_isLoading e then
                 s2\<lparr>trace := trace s2 @ [OnResourcesLoaded, EmitAllLoaded]\<rparr>
               else s2)
         else s1)"

section \<open>Synchronous load queue\<close>

definition addToQueue :: "addr \<Rightarrow> state \<Rightarrow> state" where
  "addToQueue a s =
     s\<lparr>syncQueue := Some ((case syncQueue s of None \<Rightarrow> [] | Some q \<Rightarrow> q) @ [a])\<rparr>"

definition loadNextFromQueue :: "state \<Rightarrow> state" where
  "loadNextFromQueue s =
     (let s1 = s\<lparr>isSyncLoading := False\<rparr>
      in case syncQueue s1 of
           None \<Rightarrow> s1
         | Some q \<Rightarrow>
             if q = [] then s1
             else s1\<lparr>trace := trace s1 @ [ForceLoad (last q) True],
                     syncQueue := Some (butlast q)\<rparr>)"

section \<open>Identifier generator\<close>

definition getUniqueID :: "state \<Rightarrow> int \<times> state" where
  "getUniqueID s = (uniqueID s + 1, s\<lparr>uniqueID := uniqueID s + 1\<rparr>)"

text \<open>\<open>getUniqueIDs k\<close> calls \<open>getUniqueID\<close> \<open>k\<close> times and collects the results in order.\<close>

fun getUniqueIDs :: "nat \<Rightarrow> state \<Rightarrow> int list \<times> state" where
  "getUniqueIDs 0 s = ([], s)"
| "getUniqueIDs (Suc k) s =
     (case getUniqueID s of (i, s1) \<Rightarrow>
        (case getUniqueIDs k s1 of (is, s2) \<Rightarrow> (i # is, s2)))"

section \<open>Sequences of calls\<close>

datatype call =
    Add addr
  | Remove addr
  | AddToLoad addr
  | LoadSuccess addr
  | LoadFailed addr
  | GetTexture "string option"
  | GetSound "string option"
  | AddToQueue addr
  | LoadNextFromQueue
  | GetUniqueID

text \<open>
  One call of a method, with the engine's flags as they are at that call; the value
  returned to the caller is dropped.
\<close>

fun exec :: "engine \<Rightarrow> call \<Rightarrow> state \<Rightarrow> state" where
  "exec e (Add a) s = snd (add a s)"
| "exec e (Remove a) s = remove a s"
| "exec e (AddToLoad a) s = addToLoad e a s"
| "exec e (LoadSuccess a) s = loadSuccess e a s"
| "exec e (LoadFailed a) s = loadFailed e a s"
| "exec e (GetTexture n) s = snd (getTexture n s)"
| "exec e (GetSound n) s = snd (getSound n s)"
| "exec e (AddToQueue a) s = addToQueue a s"
| "exec e LoadNextFromQueue s = loadNextFromQueue s"
| "exec e GetUniqueID s = snd (getUniqueID s)"

fun run :: "(engine \<times> call) list \<Rightarrow> state \<Rightarrow> state" where
  "run [] s = s"
| "run (ec # cs) s = run cs (exec (fst ec) (snd ec) s)"

fun isResolve :: "call \<Rightarrow> bool" where
  "isResolve (LoadSuccess a) = True"
| "isResolve (LoadFailed a) = True"
| "isResolve _ = False"

fun isAddToLoad :: "call \<Rightarrow> bool" where
  "isAddToLoad (AddToLoad a) = True"
| "isAddToLoad _ = False"

text \<open>The phase-complete notification: the engine callback and the ALL_LOADED event.\<close>

fun isNotification :: "effect \<Rightarrow> bool" where
  "isNotification OnResourcesLoaded = True"
| "isNotification EmitAllLoaded = True"
| "isNotification _ = False"

section \<open>Reading the state\<close>

text \<open>
  \<open>bucketOf s ty\<close> is the bucket that \<open>add\<close> works on (lines 64-68): the one of the
  type, or a new \<open>{}\<close>. \<open>entry s ty n\<close> is what \<open>this.resources[ty][n]\<close> reads,
  undefined when the type bucket does not exist. \<open>stored s ty n\<close> is the resource
  registered under the type and name, if any: the one held by the own property \<open>n\<close>
  of the bucket. \<open>inherited s ty n\<close> tells that the bucket exists and has \<open>n\<close> from
  \<open>Object.prototype\<close> only. \<open>inUseBucket\<close> and \<open>queueContents\<close> read an array that
  is created lazily, as the empty array before its creation.
\<close>

definition bucketOf :: "state \<Rightarrow> rtype \<Rightarrow> bucket" where
  "bucketOf s ty = (case resources s ty of None \<Rightarrow> emptyBucket | Some b \<Rightarrow> b)"

definition entry :: "state \<Rightarrow> rtype \<Rightarrow> string \<Rightarrow> jsval" where
  "entry s ty n = (case resources s ty of None \<Rightarrow> Undefined | Some subBuffer \<Rightarrow> getProp subBuffer n)"

definition stored :: "state \<Rightarrow> rtype \<Rightarrow> string \<Rightarrow> addr option" where
  "stored s ty n =
     (case resources s ty of
        None \<Rightarrow> None
      | Some subBuffer \<Rightarrow> (case own subBuffer n of Some (Some a) \<Rightarrow> Some a | _ \<Rightarrow> None))"

definition inherited :: "state \<Rightarrow> rtype \<Rightarrow> string \<Rightarrow> bool" where
  "inherited s ty n =
     (case resources s ty of
        None \<Rightarrow> False
      | Some subBuffer \<Rightarrow>
          own subBuffer n = None \<and> proto subBuffer \<and> n \<in> set objectPrototypeKeys)"

definition inUseBucket :: "state \<Rightarrow> rtype \<Rightarrow> addr list" where
  "inUseBucket s ty = (case resourcesInUse s ty of None \<Rightarrow> [] | Some b \<Rightarrow> b)"

definition queueContents :: "state \<Rightarrow> addr list" where
  "queueContents s = (case syncQueue s of None \<Rightarrow> [] | Some q \<Rightarrow> q)"

section \<open>Concrete inputs\<close>

text \<open>
  Objects and engine states on which the model is evaluated. \<open>exampleHeap\<close> holds at
  every address a texture created without a name and without a path. \<open>pathHeap\<close>
  holds textures created from a path (addresses 0, 2, 3 and 6), a named sound (4), two
  textures named \<open>toString\<close> (7 and 8) and textures whose name is the empty string
  (elsewhere). \<open>registered0\<close> is the fresh controller after the texture at address 0
  was added.
\<close>

definition exampleResource :: resource where
  "exampleResource =
     \<lparr> type = TEXTURE, name = ''unknown'', path = None, isLoading = False, inUse = False \<rparr>"

definition exampleHeap :: "addr \<Rightarrow> resource" where
  "exampleHeap = (\<lambda>a. exampleResource)"

definition pathResource :: "string \<Rightarrow> resource" where
  "pathResource p =
     \<lparr> type = TEXTURE, name = ''unknown'', path = Some p, isLoading = False, inUse = False \<rparr>"

definition namedResource :: "rtype \<Rightarrow> string \<Rightarrow> resource" where
  "namedResource ty n =
     \<lparr> type = ty, name = n, path = None, isLoading = False, inUse = False \<rparr>"

definition pathHeap :: "addr \<Rightarrow> resource" where
  "pathHeap a =
     (if a = 0 then pathResource ''a/b/c.png''
      else if a = 6 then pathResource ''a/b/readme''
      else if a = 2 then pathResource ''a.b/readme''
      else if a = 3 then pathResource ''x/c.jpg''
      else if a = 4 then namedResource SOUND ''boom''
      else if a = 7 \<or> a = 8 then namedResource TEXTURE ''toString''
      else namedResource TEXTURE [])"

definition registered0 :: state where
  "registered0 = snd (add 0 (init pathHeap))"

text \<open>The engine during the loading phase, idle and with its own loading in progress.\<close>

definition activePhase :: engine where
  "activePhase = \<lparr> engine_isReady = False, engine_isLoading = False \<rparr>"

definition activePhaseBusy :: engine where
  "activePhaseBusy = \<lparr> engine_isReady = False, engine_isLoading = True \<rparr>"

section \<open>Lemmas: type registry\<close>

lemma deriveName_type: "type (deriveName r) = type r"
  by (simp add: deriveName_def Let_def split: option.splits)

lemma deriveName_path: "path (deriveName r) = path r"
  by (simp add: deriveName_def Let_def split: option.splits)

text \<open>
  Deriving twice changes nothing: after the first derivation the name is either no
  longer \<open>unknown\<close>, or the path itself yields \<open>unknown\<close> again.
\<close>

lemma deriveName_idem: "deriveName (deriveName r) = deriveName r"
  by (simp add: deriveName_def Let_def split: option.splits)

lemma add_heap: "heap (snd (add a s)) = (heap s)(a := deriveName (heap s a))"
  by (simp add: add_def Let_def)

lemma add_fst_iff:
  "fst (add a s) = None \<longleftrightarrow>
     truthy (getProp (bucketOf s (type (heap s a))) (name (deriveName (heap s a))))"
  by (simp add: add_def bucketOf_def Let_def)

text \<open>A rejection in a bucket that exists changes the argument and the trace only.\<close>

lemma add_rejected:
  assumes "resources s (type (heap s a)) = Some subBuffer"
    and "truthy (getProp subBuffer (name (deriveName (heap s a))))"
  shows "add a s = (None, s\<lparr>heap := (heap s)(a := deriveName (heap s a)),
                            trace := trace s @ [ConsoleWarn ''[Resource.Manager.add]:'']\<rparr>)"
proof -
  have "(resources s)(type (heap s a) \<mapsto> subBuffer) = resources s"
    using assms(1) by (rule map_upd_triv)
  then show ?thesis
    using assms by (simp add: add_def Let_def)
qed

lemma stored_truthy:
  assumes "stored s ty n = Some a'"
  shows "\<exists>subBuffer. resources s ty = Some subBuffer \<and> getProp subBuffer n = Resource a'"
proof -
  obtain subBuffer where b: "resources s ty = Some subBuffer"
    and o: "own subBuffer n = Some (Some a')"
    using assms by (auto simp: stored_def split: option.splits)
  have "getProp subBuffer n = Resource a'"
    by (simp add: getProp_def o)
  with b show ?thesis by simp
qed

lemma add_duplicate:
  assumes "stored s (type (heap s a)) (name (deriveName (heap s a))) = Some a'"
  shows "add a s = (None, s\<lparr>heap := (heap s)(a := deriveName (heap s a)),
                            trace := trace s @ [ConsoleWarn ''[Resource.Manager.add]:'']\<rparr>)"
proof -
  obtain subBuffer where "resources s (type (heap s a)) = Some subBuffer"
    and "getProp subBuffer (name (deriveName (heap s a))) = Resource a'"
    using stored_truthy [OF assms] by blast
  then show ?thesis by (simp add: add_rejected)
qed

lemma add_accepted:
  assumes "\<not> truthy (getProp (bucketOf s (type (heap s a))) (name (deriveName (heap s a))))"
  shows "fst (add a s) = Some a"
    and "heap (snd (add a s)) = (heap s)(a := deriveName (heap s a))"
    and "stored (snd (add a s)) (type (heap s a)) (name (deriveName (heap s a))) = Some a"
    and "trace (snd (add a s)) = trace s @ [EmitAdded a]"
  using assms by (simp_all add: add_def bucketOf_def stored_def Let_def)

text \<open>
  Whether \<open>add\<close> stores the resource or rejects it, the bucket exists afterwards and
  the slot reads truthy, so that a second handle filed under the same type and name is
  rejected, with a warning and without any change of the registry.
\<close>

lemma add_occupies:
  "\<exists>subBuffer. resources (snd (add a s)) (type (heap s a)) = Some subBuffer
     \<and> truthy (getProp subBuffer (name (deriveName (heap s a))))"
  by (simp add: add_def getProp_def Let_def)

lemma add_second_rejected:
  assumes "type (heap s a) = type (heap s b)"
    and "name (deriveName (heap s a)) = name (deriveName (heap s b))"
  shows "fst (add b (snd (add a s))) = None"
    and "resources (snd (add b (snd (add a s)))) = resources (snd (add a s))"
    and "trace (snd (add b (snd (add a s)))) =
           trace (snd (add a s)) @ [ConsoleWarn ''[Resource.Manager.add]:'']"
proof -
  let ?s1 = "snd (add a s)"
  have hb: "type (heap ?s1 b) = type (heap s a)
      \<and> name (deriveName (heap ?s1 b)) = name (deriveName (heap s a))"
    using assms by (cases "a = b") (simp_all add: add_heap deriveName_type deriveName_idem)
  obtain subBuffer where "resources ?s1 (type (heap ?s1 b)) = Some subBuffer"
    and "truthy (getProp subBuffer (name (deriveName (heap ?s1 b))))"
    using add_occupies [of a s] hb by auto
  then have rej: "add b ?s1 = (None, ?s1\<lparr>heap := (heap ?s1)(b := deriveName (heap ?s1 b)),
                            trace := trace ?s1 @ [ConsoleWarn ''[Resource.Manager.add]:'']\<rparr>)"
    by (rule add_rejected)
  show "fst (add b ?s1) = None"
    and "resources (snd (add b ?s1)) = resources ?s1"
    and "trace (snd (add b ?s1)) = trace ?s1 @ [ConsoleWarn ''[Resource.Manager.add]:'']"
    by (simp_all add: rej)
qed

lemma remove_unregistered:
  "\<not> truthy (entry s (type (heap s a)) (name (heap s a))) \<Longrightarrow>
   remove a s = s\<lparr>trace := trace s @ [ConsoleWarn ''[Resource.Manager.remove]:'']\<rparr>"
  by (simp add: remove_def entry_def Let_def split: option.splits)

lemma remove_registered:
  assumes "stored s (type (heap s a)) (name (heap s a)) = Some a'"
  shows "entry (remove a s) (type (heap s a)) (name (heap s a)) = Null"
    and "heap (remove a s) = heap s" and "trace (remove a s) = trace s"
  using assms
  by (auto simp: remove_def entry_def stored_def getProp_def putNull_def Let_def
      split: option.splits)

text \<open>After the removal of a registered resource its type and name can be used again.\<close>

lemma remove_then_add:
  assumes "stored s (type (heap s a)) (name (heap s a)) = Some a'"
    and "type (heap s b) = type (heap s a)"
    and "name (deriveName (heap s b)) = name (heap s a)"
  shows "fst (add b (remove a s)) = Some b"
    and "stored (snd (add b (remove a s))) (type (heap s a)) (name (heap s a)) = Some b"
    and "trace (snd (add b (remove a s))) = trace s @ [EmitAdded b]"
proof -
  let ?s1 = "remove a s"
  have hp: "heap ?s1 = heap s" and tr: "trace ?s1 = trace s"
    and cleared: "entry ?s1 (type (heap s a)) (name (heap s a)) = Null"
    using remove_registered [OF assms(1)] by simp_all
  have "getProp (bucketOf ?s1 (type (heap s a))) (name (heap s a)) = Null"
    using cleared by (simp add: entry_def bucketOf_def split: option.splits)
  then have free: "\<not> truthy (getProp (bucketOf ?s1 (type (heap ?s1 b)))
                      (name (deriveName (heap ?s1 b))))"
    using assms(2,3) hp by simp
  from add_accepted [OF free] assms(2,3) hp tr
  show "fst (add b (remove a s)) = Some b"
    and "stored (snd (add b (remove a s))) (type (heap s a)) (name (heap s a)) = Some b"
    and "trace (snd (add b (remove a s))) = trace s @ [EmitAdded b]"
    by simp_all
qed

lemma getTexture_hit:
  "n \<noteq> [] \<Longrightarrow> stored s TEXTURE n = Some a \<Longrightarrow> fst (getTexture (Some n) s) = Resource a"
  by (auto simp: getTexture_def stored_def getProp_def Let_def split: option.splits)

lemma getSound_hit:
  "n \<noteq> [] \<Longrightarrow> stored s SOUND n = Some a \<Longrightarrow> fst (getSound (Some n) s) = Resource a"
  by (auto simp: getSound_def stored_def getProp_def Let_def split: option.splits)

lemma getTexture_miss:
  "stored s TEXTURE n = None \<Longrightarrow> \<not> inherited s TEXTURE n \<Longrightarrow>
   fst (getTexture (Some n) s) = Null"
  by (auto simp: getTexture_def stored_def inherited_def getProp_def Let_def split: option.splits)

lemma getSound_miss:
  "stored s SOUND n = None \<Longrightarrow> \<not> inherited s SOUND n \<Longrightarrow>
   fst (getSound (Some n) s) = Null"
  by (auto simp: getSound_def stored_def inherited_def getProp_def Let_def split: option.splits)

section \<open>Lemmas: the concrete inputs\<close>

lemma pathHeap_type [simp]:
  "type (pathHeap 0) = TEXTURE" "type (pathHeap 6) = TEXTURE" "type (pathHeap 2) = TEXTURE"
  "type (pathHeap 3) = TEXTURE" "type (pathHeap 4) = SOUND" "type (pathHeap 5) = TEXTURE"
  "type (pathHeap 7) = TEXTURE" "type (pathHeap 8) = TEXTURE"
  by (simp_all add: pathHeap_def pathResource_def namedResource_def)

lemma pathHeap_derived [simp]:
  "name (deriveName (pathHeap 0)) = ''c''"
  "name (deriveName (pathHeap 6)) = ''readme''"
  "name (deriveName (pathHeap 2)) = []"
  "name (deriveName (pathHeap 3)) = ''c''"
  "name (deriveName (pathHeap 4)) = ''boom''"
  "name (deriveName (pathHeap 5)) = []"
  "name (deriveName (pathHeap 7)) = ''toString''"
  "name (deriveName (pathHeap 8)) = ''toString''"
  by (simp_all add: pathHeap_def deriveName_def pathResource_def namedResource_def
        lastIndexOf_def slice_def Let_def)

lemma pathHeap_given [simp]:
  "name (pathHeap 3) = ''unknown''" "path (pathHeap 3) = Some ''x/c.jpg''"
  "path (pathHeap 2) = Some ''a.b/readme''"
  "name (pathHeap 7) = ''toString''" "name (pathHeap 8) = ''toString''"
  by (simp_all add: pathHeap_def pathResource_def namedResource_def)

lemma objectPrototypeKeys_examples [simp]:
  "''toString'' \<in> set objectPrototypeKeys"
  "''c'' \<notin> set objectPrototypeKeys" "''readme'' \<notin> set objectPrototypeKeys"
  "''boom'' \<notin> set objectPrototypeKeys" "[] \<notin> set objectPrototypeKeys"
  by (simp_all add: objectPrototypeKeys_def)

lemma emptyBucket_simps [simp]: "own emptyBucket = Map.empty" "proto emptyBucket"
  by (simp_all add: emptyBucket_def)

text \<open>
  A slot that reads falsy is not reached through the accessor \<open>__proto__\<close>, so the
  assignment in \<open>add\<close> creates or overwrites an own property.
\<close>

lemma falsy_not_accessor:
  "\<not> truthy (getProp b n) \<Longrightarrow> \<not> (own b n = None \<and> proto b \<and> n = ''__proto__'')"
  by (auto simp: getProp_def objectPrototypeKeys_def)

lemma getProp_emptyBucket:
  "getProp emptyBucket n = (if n \<in> set objectPrototypeKeys then Inherited n else Undefined)"
  by (simp add: getProp_def emptyBucket_def)

lemma init_simps [simp]:
  "heap (init h) = h" "trace (init h) = []" "bucketOf (init h) ty = emptyBucket"
  "resources (init h) = Map.empty"
  by (simp_all add: init_def bucketOf_def)

lemma init_free:
  "name (deriveName (h a)) \<notin> set objectPrototypeKeys \<Longrightarrow>
   \<not> truthy (getProp (bucketOf (init h) (type (heap (init h) a)))
        (name (deriveName (heap (init h) a))))"
  by (simp add: getProp_emptyBucket)

lemma registered0_facts:
  "heap registered0 = pathHeap(0 := deriveName (pathHeap 0))"
  "stored registered0 TEXTURE ''c'' = Some 0"
  "trace registered0 = [EmitAdded 0]"
  using add_accepted(2-4) [OF init_free [of pathHeap 0]]
  by (simp_all add: registered0_def)

lemma registered0_bucket:
  "resources registered0 TEXTURE = Some (emptyBucket\<lparr>own := [''c'' \<mapsto> Some 0]\<rparr>)"
  by (simp add: registered0_def add_def getProp_emptyBucket Let_def)

section \<open>Lemmas: load accounting\<close>

lemma run_append: "run (xs @ ys) s = run ys (run xs s)"
  by (induction xs arbitrary: s) simp_all

lemma exec_addToLoad:
  assumes "isAddToLoad c" and "\<not> engine_isReady e"
  shows "numToLoad (exec e c s) = numToLoad s + 1" and "trace (exec e c s) = trace s"
  using assms by (cases c; simp add: addToLoad_def)+

text \<open>
  One completion during the phase: the counter drops by one, and the notification is
  appended exactly when the counter was \<open>1\<close> and the engine is not loading.
\<close>

lemma exec_resolve:
  assumes "isResolve c" and "\<not> engine_isReady e"
  shows "numToLoad (exec e c s) = numToLoad s - 1"
    and "trace (exec e c s) = trace s @
           (if numToLoad s = 1 \<and> \<not> engine_isLoading e then [OnResourcesLoaded, EmitAllLoaded] else [])"
  using assms by (cases c; simp add: loadSuccess_def loadFailed_def Let_def)+

lemma run_adds:
  assumes "\<forall>x\<in>set adds. isAddToLoad (snd x) \<and> \<not> engine_isReady (fst x)"
  shows "numToLoad (run adds s) = numToLoad s + int (length adds) \<and> trace (run adds s) = trace s"
  using assms
proof (induction adds arbitrary: s)
  case Nil
  show ?case by simp
next
  case (Cons x adds)
  have x: "isAddToLoad (snd x)" "\<not> engine_isReady (fst x)" using Cons.prems by simp_all
  have rest: "\<forall>y\<in>set adds. isAddToLoad (snd y) \<and> \<not> engine_isReady (fst y)" using Cons.prems by simp
  show ?case
    using Cons.IH [OF rest, of "exec (fst x) (snd x) s"] exec_addToLoad [OF x, of s] by simp
qed

text \<open>While fewer completions than outstanding loads have arrived, nothing is emitted.\<close>

lemma run_resolves_pending:
  assumes "\<forall>x\<in>set rs. isResolve (snd x) \<and> \<not> engine_isReady (fst x)"
    and "int (length rs) < numToLoad s"
  shows "numToLoad (run rs s) = numToLoad s - int (length rs) \<and> trace (run rs s) = trace s"
  using assms
proof (induction rs arbitrary: s)
  case Nil
  show ?case by simp
next
  case (Cons x rs)
  let ?s1 = "exec (fst x) (snd x) s"
  have x: "isResolve (snd x)" "\<not> engine_isReady (fst x)" using Cons.prems(1) by simp_all
  have rest: "\<forall>y\<in>set rs. isResolve (snd y) \<and> \<not> engine_isReady (fst y)" using Cons.prems(1) by simp
  have n1: "numToLoad ?s1 = numToLoad s - 1" by (rule exec_resolve(1) [OF x])
  have "numToLoad s \<noteq> 1" using Cons.prems(2) by simp
  then have t1: "trace ?s1 = trace s" using exec_resolve(2) [OF x, of s] by simp
  have "int (length rs) < numToLoad ?s1" using Cons.prems(2) n1 by simp
  from Cons.IH [OF rest this] n1 t1 show ?case by simp
qed

lemma run_resolves_all:
  assumes "\<forall>x\<in>set rs. isResolve (snd x) \<and> \<not> engine_isReady (fst x)"
    and "rs \<noteq> []" and "numToLoad s = int (length rs)"
  shows "trace (run rs s) = trace s @
           (if engine_isLoading (fst (last rs)) then [] else [OnResourcesLoaded, EmitAllLoaded])"
proof -
  let ?front = "butlast rs" and ?x = "last rs"
  let ?s1 = "run ?front s"
  have split: "rs = ?front @ [?x]" using assms(2) by simp
  have front: "\<forall>y\<in>set ?front. isResolve (snd y) \<and> \<not> engine_isReady (fst y)"
    using assms(1) by (auto dest: in_set_butlastD)
  have x: "isResolve (snd ?x)" "\<not> engine_isReady (fst ?x)" using assms(1,2) by simp_all
  have "int (length ?front) < numToLoad s" using assms(2,3) by (cases rs) simp_all
  from run_resolves_pending [OF front this]
  have n1: "numToLoad ?s1 = 1" and t1: "trace ?s1 = trace s"
    using assms(2,3) by (simp_all add: of_nat_diff Suc_leI)
  have "run rs s = exec (fst ?x) (snd ?x) ?s1"
    using split run_append [of ?front "[?x]" s] by simp
  then show ?thesis
    using exec_resolve(2) [OF x, of ?s1] n1 t1 by simp
qed

lemma exec_no_notification:
  "\<not> isResolve c \<Longrightarrow> filter isNotification (trace (exec e c s)) = filter isNotification (trace s)"
  by (cases c)
     (simp_all add: add_def remove_def addToLoad_def getTexture_def getSound_def addToQueue_def
        loadNextFromQueue_def getUniqueID_def Let_def split: option.splits)

lemma run_no_notification:
  "\<forall>x\<in>set cs. \<not> isResolve (snd x) \<Longrightarrow>
   filter isNotification (trace (run cs s)) = filter isNotification (trace s)"
  by (induction cs arbitrary: s) (simp_all add: exec_no_notification)

section \<open>Lemmas: synchronous load queue\<close>

lemma loadNextFromQueue_snoc:
  "syncQueue s = Some (q @ [a]) \<Longrightarrow>
   loadNextFromQueue s = s\<lparr>isSyncLoading := False, trace := trace s @ [ForceLoad a True], syncQueue := Some q\<rparr>"
  by (simp add: loadNextFromQueue_def)

lemma fold_addToQueue_Some:
  "syncQueue s = Some q \<Longrightarrow> syncQueue (fold addToQueue xs s) = Some (q @ xs)"
  by (induction xs arbitrary: s q) (simp_all add: addToQueue_def)

lemma fold_addToQueue:
  "xs \<noteq> [] \<Longrightarrow> syncQueue (fold addToQueue xs s) = Some (queueContents s @ xs)"
proof (cases xs)
  case Nil
  assume "xs \<noteq> []"
  with Nil show ?thesis by simp
next
  case (Cons a ys)
  have "syncQueue (addToQueue a s) = Some (queueContents s @ [a])"
    by (simp add: addToQueue_def queueContents_def)
  from fold_addToQueue_Some [OF this, of ys] Cons show ?thesis by simp
qed

lemma fold_addToQueue_trace:
  "trace (fold addToQueue xs s) = trace s"
  by (induction xs arbitrary: s) (simp_all add: addToQueue_def)

text \<open>Draining as many times as there are elements on top of \<open>q\<close> loads them last first.\<close>

lemma drain_queue:
  "syncQueue s = Some (q @ xs) \<Longrightarrow>
   syncQueue ((loadNextFromQueue ^^ length xs) s) = Some q
   \<and> trace ((loadNextFromQueue ^^ length xs) s) = trace s @ map (\<lambda>a. ForceLoad a True) (rev xs)"
proof (induction xs arbitrary: s rule: rev_induct)
  case Nil
  then show ?case by simp
next
  case (snoc x xs)
  let ?s1 = "loadNextFromQueue s"
  have q: "syncQueue s = Some ((q @ xs) @ [x])" using snoc.prems by simp
  have s1: "?s1 = s\<lparr>isSyncLoading := False, trace := trace s @ [ForceLoad x True], syncQueue := Some (q @ xs)\<rparr>"
    by (rule loadNextFromQueue_snoc [OF q])
  have "syncQueue ?s1 = Some (q @ xs)" by (simp add: s1)
  from snoc.IH [OF this] s1 show ?case
    by (simp add: funpow_swap1)
qed

section \<open>Lemmas: identifier generator\<close>

lemma getUniqueIDs_from:
  "fst (getUniqueIDs k s) = [uniqueID s + 1 .. uniqueID s + int k]"
proof (induction k arbitrary: s)
  case 0
  show ?case by simp
next
  case (Suc k)
  let ?s1 = "s\<lparr>uniqueID := uniqueID s + 1\<rparr>"
  have step: "fst (getUniqueIDs (Suc k) s) = (uniqueID s + 1) # fst (getUniqueIDs k ?s1)"
    by (simp add: getUniqueID_def split: prod.splits)
  have "[uniqueID s + 1 .. uniqueID s + int (Suc k)]
      = (uniqueID s + 1) # [uniqueID s + 1 + 1 .. uniqueID s + int (Suc k)]"
    by (rule upto_rec1) simp
  moreover have "uniqueID ?s1 + int k = uniqueID s + int (Suc k)"
    by simp
  ultimately show ?case
    using step Suc.IH [of ?s1] by (simp add: algebra_simps)
qed

section \<open>Claims\<close>

subsection \<open>C1: the phase-complete notification\<close>

text \<open>
  C1, as the code has it. Start with \<open>numToLoad = 0\<close>, call \<open>addToLoad\<close> for
  \<open>N > 0\<close> handles (the list \<open>adds\<close>) and then report \<open>N\<close> completions (the list
  \<open>rs\<close>, successes and failures in any order and for any handles), the engine's
  readiness flag being false at every call. Then the engine callback and the ALL_LOADED
  event are emitted once, by the last completion, provided the engine's own
  \<open>isLoading\<close> flag is false at that call; when that flag is true there, nothing is
  emitted at all. After every proper prefix of the calls nothing has been emitted. And
  a sequence of calls of any methods that holds no \<open>loadSuccess\<close> and no
  \<open>loadFailed\<close> emits no notification, from any state.
\<close>

theorem phase_complete_fires_once:
  assumes "numToLoad s = 0" and "adds \<noteq> []"
    and "\<forall>x\<in>set adds. isAddToLoad (snd x)"
    and "\<forall>x\<in>set rs. isResolve (snd x)"
    and "length rs = length adds"
    and "\<forall>x\<in>set (adds @ rs). \<not> engine_isReady (fst x)"
  shows "trace (run (adds @ rs) s) = trace s @
           (if engine_isLoading (fst (last rs)) then [] else [OnResourcesLoaded, EmitAllLoaded])
       \<and> (\<forall>n < length (adds @ rs). trace (run (take n (adds @ rs)) s) = trace s)
       \<and> ((\<forall>x\<in>set cs. \<not> isResolve (snd x)) \<longrightarrow>
            filter isNotification (trace (run cs s0)) = filter isNotification (trace s0))"
proof -
  have A: "\<forall>x\<in>set adds. isAddToLoad (snd x) \<and> \<not> engine_isReady (fst x)"
    using assms(3,6) by simp
  have R: "\<forall>x\<in>set rs. isResolve (snd x) \<and> \<not> engine_isReady (fst x)"
    using assms(4,6) by simp
  let ?s1 = "run adds s"
  have n1: "numToLoad ?s1 = int (length adds)" and t1: "trace ?s1 = trace s"
    using run_adds [OF A, of s] assms(1) by simp_all
  have rs: "rs \<noteq> []" using assms(2,5) by auto
  have full: "trace (run (adds @ rs) s) = trace s @
           (if engine_isLoading (fst (last rs)) then [] else [OnResourcesLoaded, EmitAllLoaded])"
    using run_resolves_all [OF R rs, of ?s1] n1 t1 assms(5) by (simp add: run_append)
  have pre: "trace (run (take n (adds @ rs)) s) = trace s" if n: "n < length (adds @ rs)" for n
  proof (cases "n \<le> length adds")
    case True
    have "\<forall>x\<in>set (take n adds). isAddToLoad (snd x) \<and> \<not> engine_isReady (fst x)"
      using A by (auto dest: in_set_takeD)
    from run_adds [OF this, of s] True show ?thesis by simp
  next
    case False
    let ?m = "n - length adds"
    have tk: "take n (adds @ rs) = adds @ take ?m rs" using False by simp
    have Rm: "\<forall>x\<in>set (take ?m rs). isResolve (snd x) \<and> \<not> engine_isReady (fst x)"
      using R by (auto dest: in_set_takeD)
    have "int (length (take ?m rs)) < numToLoad ?s1"
      using n False n1 assms(5) by simp
    from run_resolves_pending [OF Rm this] t1 tk show ?thesis
      by (simp add: run_append)
  qed
  show ?thesis using full pre run_no_notification [of cs s0] by blast
qed

text \<open>
  Two handles, one failing and one succeeding: the notification comes with the fourth
  call and not with the third; registering and removing a handle emits none.
\<close>

theorem phase_complete_fires_once_witness:
  "trace (run [(activePhase, AddToLoad 1), (activePhaseBusy, AddToLoad 2),
               (activePhaseBusy, LoadFailed 2), (activePhase, LoadSuccess 1)] (init exampleHeap))
     = [OnResourcesLoaded, EmitAllLoaded]
   \<and> trace (run [(activePhase, AddToLoad 1), (activePhaseBusy, AddToLoad 2),
               (activePhaseBusy, LoadFailed 2)] (init exampleHeap)) = []
   \<and> filter isNotification (trace (run [(activePhase, Add 1), (activePhase, AddToLoad 1),
               (activePhase, Remove 1)] (init exampleHeap))) = []"
  using phase_complete_fires_once [of "init exampleHeap"
          "[(activePhase, AddToLoad 1), (activePhaseBusy, AddToLoad 2)]"
          "[(activePhaseBusy, LoadFailed 2), (activePhase, LoadSuccess 1)]"
          "[(activePhase, Add 1), (activePhase, AddToLoad 1), (activePhase, Remove 1)]"
          "init exampleHeap"]
  by (simp add: init_def activePhase_def activePhaseBusy_def All_less_Suc numeral_nat)

text \<open>
  The claim without the proviso fails: one handle is added and resolves while the
  engine's \<open>isLoading\<close> flag is true; the counter is back at \<open>0\<close> and nothing was
  emitted.
\<close>

theorem phase_complete_counterexample:
  "trace (run [(activePhaseBusy, AddToLoad 1), (activePhaseBusy, LoadSuccess 1)]
        (init exampleHeap)) = []
   \<and> numToLoad (run [(activePhaseBusy, AddToLoad 1), (activePhaseBusy, LoadSuccess 1)]
        (init exampleHeap)) = 0"
  by (simp add: addToLoad_def loadSuccess_def init_def activePhaseBusy_def Let_def)

subsection \<open>C2: a duplicate is rejected\<close>

text \<open>
  C2. The duplicate test of \<open>add\<close> reads the bucket through its prototype. On a fresh
  controller, two textures named \<open>toString\<close> are added one after the other: the first
  call already finds the inherited function under that name, warns and returns null, and
  so does the second, so that no handle is registered under the name afterwards and no
  ADDED event was emitted, where the claim says that the registry then contains the
  first handle.
\<close>

theorem add_inherited_name_rejected:
  "fst (add 7 (init pathHeap)) = None
   \<and> fst (add 8 (snd (add 7 (init pathHeap)))) = None
   \<and> stored (snd (add 8 (snd (add 7 (init pathHeap))))) TEXTURE ''toString'' = None
   \<and> resources (snd (add 8 (snd (add 7 (init pathHeap))))) TEXTURE = Some emptyBucket
   \<and> trace (snd (add 8 (snd (add 7 (init pathHeap))))) =
       [ConsoleWarn ''[Resource.Manager.add]:'', ConsoleWarn ''[Resource.Manager.add]:'']"
proof -
  have first: "add 7 (init pathHeap) =
      (None, (init pathHeap)\<lparr>heap := pathHeap(7 := deriveName (pathHeap 7)),
         resources := [TEXTURE \<mapsto> emptyBucket],
         trace := [ConsoleWarn ''[Resource.Manager.add]:'']\<rparr>)"
    by (simp add: add_def getProp_emptyBucket Let_def)
  show ?thesis
    by (simp add: first add_def getProp_emptyBucket deriveName_type stored_def Let_def)
qed

subsection \<open>C3: name derivation\<close>

text \<open>
  C3. The derivation takes the last dot of the whole path, not of its last segment. For
  the two paths of the spec it yields \<open>c\<close> and \<open>readme\<close>; for \<open>a.b/readme\<close>, whose
  only dot is in a directory segment, \<open>add\<close> accepts the handle and names it with the
  empty string, where the claim says \<open>readme\<close>.
\<close>

theorem deriveName_dot_in_directory:
  "fst (add 2 (init pathHeap)) = Some 2
   \<and> path (heap (snd (add 2 (init pathHeap))) 2) = Some ''a.b/readme''
   \<and> name (heap (snd (add 2 (init pathHeap))) 2) = []
   \<and> name (heap (snd (add 0 (init pathHeap))) 0) = ''c''
   \<and> name (heap (snd (add 6 (init pathHeap))) 6) = ''readme''"
  using add_accepted(1) [OF init_free [of pathHeap 2]]
  by (simp add: add_heap deriveName_path)

subsection \<open>C4: the counter of outstanding loads\<close>

text \<open>
  C4, as the code has it. Nothing clamps \<open>numToLoad\<close>: while the engine's readiness
  flag is false, every \<open>loadSuccess\<close> and every \<open>loadFailed\<close> lowers it by exactly
  one, whatever its value, and it is left as it is when the flag is true. Neither method
  logs: apart from the phase-complete notification they leave the trace unchanged.
\<close>

theorem numToLoad_decrement_unguarded:
  "numToLoad (loadSuccess e a s) = (if engine_isReady e then numToLoad s else numToLoad s - 1)
   \<and> numToLoad (loadFailed e a s) = (if engine_isReady e then numToLoad s else numToLoad s - 1)
   \<and> filter (\<lambda>x. \<not> isNotification x) (trace (loadSuccess e a s))
       = filter (\<lambda>x. \<not> isNotification x) (trace s)
   \<and> filter (\<lambda>x. \<not> isNotification x) (trace (loadFailed e a s))
       = filter (\<lambda>x. \<not> isNotification x) (trace s)"
  by (simp add: loadSuccess_def loadFailed_def Let_def)

text \<open>
  On a fresh controller, one completion that no \<open>addToLoad\<close> preceded leaves the
  counter at \<open>-1\<close>, and nothing is logged.
\<close>

theorem numToLoad_negative_counterexample:
  "numToLoad (loadSuccess activePhase 0 (init exampleHeap)) = - 1
   \<and> numToLoad (loadFailed activePhase 0 (init exampleHeap)) = - 1
   \<and> trace (loadSuccess activePhase 0 (init exampleHeap)) = []
   \<and> trace (loadFailed activePhase 0 (init exampleHeap)) = []"
  by (simp add: loadSuccess_def loadFailed_def init_def activePhase_def Let_def)

subsection \<open>C5: promotion to the in-use registry\<close>

text \<open>
  C5. From any state, and so whether or not \<open>addToLoad\<close> was called before, one call
  of \<open>loadSuccess\<close> appends the handle to the in-use bucket of its type, which is
  created when absent, and changes no other bucket; the handle occurs in the bucket once
  more than before; its \<open>isLoading\<close> is false and its \<open>inUse\<close> is true afterwards,
  and no other object is touched.
\<close>

theorem loadSuccess_promotes:
  "resourcesInUse (loadSuccess e a s)
     = (resourcesInUse s)(type (heap s a) \<mapsto> inUseBucket s (type (heap s a)) @ [a])
   \<and> inUseBucket (loadSuccess e a s) (type (heap s a)) = inUseBucket s (type (heap s a)) @ [a]
   \<and> count_list (inUseBucket (loadSuccess e a s) (type (heap s a))) a
       = count_list (inUseBucket s (type (heap s a))) a + 1
   \<and> heap (loadSuccess e a s) = (heap s)(a := (heap s a)\<lparr>isLoading := False, inUse := True\<rparr>)
   \<and> isLoading (heap (loadSuccess e a s) a) = False
   \<and> inUse (heap (loadSuccess e a s) a) = True"
  by (simp add: loadSuccess_def inUseBucket_def Let_def)

theorem loadSuccess_promotes_witness:
  "resourcesInUse (loadSuccess activePhase 7 (init exampleHeap)) TEXTURE = Some [7]
   \<and> resourcesInUse (loadSuccess activePhase 7 (init exampleHeap)) SOUND = None
   \<and> inUse (heap (loadSuccess activePhase 7 (init exampleHeap)) 7)
   \<and> \<not> isLoading (heap (loadSuccess activePhase 7 (init exampleHeap)) 7)"
  using loadSuccess_promotes [of activePhase 7 "init exampleHeap"]
  by (simp add: inUseBucket_def init_def exampleHeap_def exampleResource_def)

subsection \<open>C6: the synchronous load queue\<close>

text \<open>
  C6. After the handles \<open>xs\<close> were enqueued in order with \<open>addToQueue\<close>, \<open>n\<close> calls
  of \<open>loadNextFromQueue\<close> (\<open>n\<close> at most the length of \<open>xs\<close>) force-load the last
  \<open>n\<close> handles of \<open>xs\<close>, the last one first, and leave the queue without them. On a
  queue that is empty or was never created a call only clears \<open>isSyncLoading\<close>, and
  every call clears it.
\<close>

theorem syncQueue_drains_lifo:
  assumes "xs \<noteq> []" and "n \<le> length xs"
  shows "syncQueue ((loadNextFromQueue ^^ n) (fold addToQueue xs s))
           = Some (queueContents s @ take (length xs - n) xs)
       \<and> trace ((loadNextFromQueue ^^ n) (fold addToQueue xs s))
           = trace s @ map (\<lambda>a. ForceLoad a True) (take n (rev xs))
       \<and> (queueContents s = [] \<longrightarrow> loadNextFromQueue s = s\<lparr>isSyncLoading := False\<rparr>)
       \<and> isSyncLoading (loadNextFromQueue s) = False"
proof -
  let ?s0 = "fold addToQueue xs s"
  let ?k = "length xs - n"
  have len: "length (drop ?k xs) = n" using assms(2) by simp
  have "syncQueue ?s0 = Some ((queueContents s @ take ?k xs) @ drop ?k xs)"
    using fold_addToQueue [OF assms(1)] by simp
  from drain_queue [OF this] len
  have "syncQueue ((loadNextFromQueue ^^ n) ?s0) = Some (queueContents s @ take ?k xs)"
    and "trace ((loadNextFromQueue ^^ n) ?s0)
           = trace ?s0 @ map (\<lambda>a. ForceLoad a True) (rev (drop ?k xs))"
    by simp_all
  moreover have "rev (drop ?k xs) = take n (rev xs)"
    using assms(2) by (simp add: take_rev)
  moreover have "queueContents s = [] \<longrightarrow> loadNextFromQueue s = s\<lparr>isSyncLoading := False\<rparr>"
    by (auto simp: loadNextFromQueue_def queueContents_def split: option.splits)
  moreover have "isSyncLoading (loadNextFromQueue s) = False"
    by (simp add: loadNextFromQueue_def Let_def split: option.splits)
  ultimately show ?thesis
    by (simp add: fold_addToQueue_trace)
qed

text \<open>Handles 10, 20 and 30 enqueued in this order are loaded as 30, 20, 10.\<close>

theorem syncQueue_drains_lifo_witness:
  "trace ((loadNextFromQueue ^^ 3) (fold addToQueue [10, 20, 30] (init exampleHeap)))
     = [ForceLoad 30 True, ForceLoad 20 True, ForceLoad 10 True]
   \<and> syncQueue ((loadNextFromQueue ^^ 3) (fold addToQueue [10, 20, 30] (init exampleHeap))) = Some []
   \<and> syncQueue ((loadNextFromQueue ^^ 1) (fold addToQueue [10, 20, 30] (init exampleHeap)))
       = Some [10, 20]
   \<and> loadNextFromQueue (init exampleHeap) = (init exampleHeap)\<lparr>isSyncLoading := False\<rparr>"
  using syncQueue_drains_lifo [of "[10, 20, 30]" 3 "init exampleHeap"]
        syncQueue_drains_lifo [of "[10, 20, 30]" 1 "init exampleHeap"]
  by (simp add: queueContents_def init_def)

subsection \<open>C7: unique identifiers\<close>

text \<open>
  C7. On a fresh controller, \<open>k\<close> successive calls of \<open>getUniqueID\<close> return the
  integers \<open>1, 2, ..., k\<close> in this order: \<open>k\<close> values, pairwise distinct and strictly
  increasing, and the first value issued is \<open>1\<close>.
\<close>

theorem getUniqueID_fresh_sequence:
  "fst (getUniqueIDs k (init h)) = [1 .. int k]
   \<and> length (fst (getUniqueIDs k (init h))) = k
   \<and> distinct (fst (getUniqueIDs k (init h)))
   \<and> sorted_wrt (<) (fst (getUniqueIDs k (init h)))
   \<and> take 1 (fst (getUniqueIDs (Suc k) (init h))) = [1]"
proof -
  have eq: "\<And>n. fst (getUniqueIDs n (init h)) = [1 .. int n]"
    using getUniqueIDs_from [of _ "init h"] by (simp add: init_def)
  have "[1 .. int (Suc k)] = 1 # [1 + 1 .. int (Suc k)]"
    by (rule upto_rec1) simp
  then have t: "take 1 [1 .. int (Suc k)] = [1]"
    by simp
  show ?thesis unfolding eq using t by simp
qed

theorem getUniqueID_fresh_sequence_witness:
  "fst (getUniqueIDs 4 (init exampleHeap)) = [1, 2, 3, 4]"
  using getUniqueID_fresh_sequence [of 4 exampleHeap]
  by (simp add: upto_rec1)

subsection \<open>C8: removal and reuse of a name\<close>

text \<open>
  C8. The test of \<open>remove\<close> reads the bucket through its prototype. In a controller
  that holds one texture, \<open>c\<close>, a texture named \<open>toString\<close> that was never added is
  removed: nothing is registered under that name, yet the slot reads as the inherited
  function, so \<open>remove\<close> logs nothing and writes null under the name, where the claim
  says that it only logs and leaves the registry unchanged.
\<close>

theorem remove_inherited_name_unlogged:
  "stored registered0 TEXTURE ''toString'' = None
   \<and> entry registered0 TEXTURE ''toString'' = Inherited ''toString''
   \<and> trace (remove 7 registered0) = trace registered0
   \<and> entry (remove 7 registered0) TEXTURE ''toString'' = Null
   \<and> resources (remove 7 registered0) \<noteq> resources registered0"
proof -
  let ?b = "emptyBucket\<lparr>own := [''c'' \<mapsto> Some 0]\<rparr>"
  have h7: "type (heap registered0 7) = TEXTURE" "name (heap registered0 7) = ''toString''"
    by (simp_all add: registered0_facts)
  have rd: "getProp ?b ''toString'' = Inherited ''toString''"
    by (simp add: getProp_def emptyBucket_def)
  have rm: "remove 7 registered0 = registered0\<lparr>resources :=
      (resources registered0)(TEXTURE \<mapsto> putNull ?b ''toString'')\<rparr>"
    by (simp add: remove_def h7 registered0_bucket rd Let_def)
  have wr: "getProp (putNull ?b ''toString'') ''toString'' = Null"
    by (simp add: putNull_def getProp_def emptyBucket_def)
  have "resources (remove 7 registered0) TEXTURE \<noteq> resources registered0 TEXTURE"
  proof
    assume "resources (remove 7 registered0) TEXTURE = resources registered0 TEXTURE"
    then have "putNull ?b ''toString'' = ?b" by (simp add: rm registered0_bucket)
    then have "getProp (putNull ?b ''toString'') ''toString'' = getProp ?b ''toString''" by simp
    then show False by (simp add: wr rd)
  qed
  then have "resources (remove 7 registered0) \<noteq> resources registered0" by metis
  moreover have "stored registered0 TEXTURE ''toString'' = None"
    by (simp add: stored_def registered0_bucket emptyBucket_def)
  moreover have "entry registered0 TEXTURE ''toString'' = Inherited ''toString''"
    by (simp add: entry_def registered0_bucket rd)
  moreover have "entry (remove 7 registered0) TEXTURE ''toString'' = Null"
    by (simp add: entry_def rm wr)
  moreover have "trace (remove 7 registered0) = trace registered0"
    by (simp add: rm)
  ultimately show ?thesis by simp
qed

subsection \<open>C9: lookup by name\<close>

text \<open>
  C9, as the code has it. When \<open>add\<close> has stored a handle and the name it is filed
  under is not the empty string, \<open>getTexture\<close> (for a texture) and \<open>getSound\<close> (for
  a sound) called next with that name return this handle. Both lookups return null for
  an absent name and for the empty name, and for a name under which no resource is
  registered in their type and which the bucket of the type does not inherit from
  \<open>Object.prototype\<close>.
\<close>

theorem lookup_returns_added:
  assumes "fst (add a s) = Some a" and "name (heap (snd (add a s)) a) \<noteq> []"
  shows "(type (heap s a) = TEXTURE \<longrightarrow>
            fst (getTexture (Some (name (heap (snd (add a s)) a))) (snd (add a s))) = Resource a)
       \<and> (type (heap s a) = SOUND \<longrightarrow>
            fst (getSound (Some (name (heap (snd (add a s)) a))) (snd (add a s))) = Resource a)
       \<and> fst (getTexture None s') = Null \<and> fst (getTexture (Some []) s') = Null
       \<and> fst (getSound None s') = Null \<and> fst (getSound (Some []) s') = Null
       \<and> (stored s' TEXTURE n = None \<and> \<not> inherited s' TEXTURE n \<longrightarrow>
            fst (getTexture (Some n) s') = Null)
       \<and> (stored s' SOUND n = None \<and> \<not> inherited s' SOUND n \<longrightarrow>
            fst (getSound (Some n) s') = Null)"
proof -
  let ?s1 = "snd (add a s)"
  let ?n = "name (deriveName (heap s a))"
  have nm: "name (heap ?s1 a) = ?n" by (simp add: add_heap)
  have free: "\<not> truthy (getProp (bucketOf s (type (heap s a))) ?n)"
    using assms(1) add_fst_iff [of a s] by auto
  have held: "stored ?s1 (type (heap s a)) ?n = Some a"
    by (rule add_accepted(3) [OF free])
  have ne: "?n \<noteq> []" using assms(2) nm by simp
  have t: "type (heap s a) = TEXTURE \<longrightarrow>
      fst (getTexture (Some (name (heap ?s1 a))) ?s1) = Resource a"
    using getTexture_hit [OF ne, of ?s1 a] held nm by auto
  have so: "type (heap s a) = SOUND \<longrightarrow>
      fst (getSound (Some (name (heap ?s1 a))) ?s1) = Resource a"
    using getSound_hit [OF ne, of ?s1 a] held nm by auto
  have e: "fst (getTexture None s') = Null \<and> fst (getTexture (Some []) s') = Null
       \<and> fst (getSound None s') = Null \<and> fst (getSound (Some []) s') = Null"
    by (simp add: getTexture_def getSound_def)
  show ?thesis using t so e getTexture_miss [of s' n] getSound_miss [of s' n] by blast
qed

theorem lookup_returns_added_witness:
  "fst (add 0 (init pathHeap)) = Some 0
   \<and> fst (getTexture (Some ''c'') registered0) = Resource 0
   \<and> fst (add 4 (init pathHeap)) = Some 4
   \<and> fst (getSound (Some ''boom'') (snd (add 4 (init pathHeap)))) = Resource 4
   \<and> fst (getTexture (Some ''readme'') registered0) = Null
   \<and> fst (getSound (Some ''c'') registered0) = Null
   \<and> fst (getTexture None registered0) = Null"
proof -
  have a0: "fst (add 0 (init pathHeap)) = Some 0"
      "name (heap (snd (add 0 (init pathHeap))) 0) = ''c''"
    using add_accepted(1) [OF init_free [of pathHeap 0]] by (simp_all add: add_heap)
  have a4: "fst (add 4 (init pathHeap)) = Some 4"
      "name (heap (snd (add 4 (init pathHeap))) 4) = ''boom''"
    using add_accepted(1) [OF init_free [of pathHeap 4]] by (simp_all add: add_heap)
  have m1: "stored registered0 TEXTURE ''readme'' = None \<and> \<not> inherited registered0 TEXTURE ''readme''"
    by (simp add: stored_def inherited_def registered0_bucket)
  have m2: "stored registered0 SOUND ''c'' = None \<and> \<not> inherited registered0 SOUND ''c''"
    by (simp add: stored_def inherited_def registered0_def add_def Let_def)
  show ?thesis
    using lookup_returns_added [of 0 "init pathHeap" registered0 "''readme''"]
          lookup_returns_added [of 4 "init pathHeap" registered0 "''c''"]
          a0 a4 m1 m2
    by (simp add: registered0_def)
qed

text \<open>
  A texture whose name is the empty string is accepted by \<open>add\<close> and stored under
  that name, and the lookup by its name returns null.
\<close>

theorem lookup_empty_name_counterexample:
  "fst (add 5 (init pathHeap)) = Some 5
   \<and> name (heap (snd (add 5 (init pathHeap))) 5) = []
   \<and> stored (snd (add 5 (init pathHeap))) TEXTURE [] = Some 5
   \<and> fst (getTexture (Some (name (heap (snd (add 5 (init pathHeap))) 5)))
        (snd (add 5 (init pathHeap)))) = Null"
  using add_accepted [OF init_free [of pathHeap 5]]
  by (simp add: getTexture_def)

text \<open>
  Outside the statement above: a name that the bucket inherits is looked up as the
  inherited value, as with \<open>toString\<close> once the texture bucket exists.
\<close>

lemma getTexture_inherited:
  "n \<noteq> [] \<Longrightarrow> inherited s TEXTURE n \<Longrightarrow> fst (getTexture (Some n) s) = Inherited n"
  by (auto simp: getTexture_def inherited_def getProp_def Let_def split: option.splits)

lemma getTexture_inherited_example:
  "fst (getTexture (Some ''toString'') registered0) = Inherited ''toString''"
  by (rule getTexture_inherited) (simp_all add: inherited_def registered0_bucket emptyBucket_def)

subsection \<open>C10: a rejected add still renames its argument\<close>

text \<open>
  C10. When a resource is registered under the type and the name that \<open>add\<close> files the
  handle under, \<open>add\<close> returns null, the registry is unchanged and the trace gains a
  warning and no event, yet the handle has gone through the derivation step: in the
  store it is replaced by its derived form, so a handle named \<open>unknown\<close> with a
  non-empty path now carries the name cut out of the path.
\<close>

theorem add_rejected_mutates_argument:
  assumes "stored s (type (heap s b)) (name (deriveName (heap s b))) = Some a'"
  shows "fst (add b s) = None
       \<and> heap (snd (add b s)) = (heap s)(b := deriveName (heap s b))
       \<and> resources (snd (add b s)) = resources s
       \<and> trace (snd (add b s)) = trace s @ [ConsoleWarn ''[Resource.Manager.add]:'']
       \<and> (name (heap s b) = ''unknown'' \<and> path (heap s b) = Some p \<and> p \<noteq> [] \<longrightarrow>
            name (heap (snd (add b s)) b) =
              slice p (lastIndexOf p (CHR ''/'') + 1)
                (if lastIndexOf p (CHR ''.'') < 0 then int (length p)
                 else lastIndexOf p (CHR ''.'')))"
proof -
  have "name (heap s b) = ''unknown'' \<and> path (heap s b) = Some p \<and> p \<noteq> [] \<longrightarrow>
      name (deriveName (heap s b)) =
        slice p (lastIndexOf p (CHR ''/'') + 1)
          (if lastIndexOf p (CHR ''.'') < 0 then int (length p) else lastIndexOf p (CHR ''.''))"
    by (simp add: deriveName_def Let_def)
  then show ?thesis
    by (simp add: add_duplicate [OF assms])
qed

text \<open>
  With \<open>c\<close> registered, the texture of \<open>x/c.jpg\<close> is rejected and has been renamed
  from \<open>unknown\<close> to \<open>c\<close>.
\<close>

theorem add_rejected_mutates_argument_witness:
  "stored registered0 TEXTURE ''c'' = Some 0
   \<and> fst (add 3 registered0) = None
   \<and> name (heap registered0 3) = ''unknown''
   \<and> name (heap (snd (add 3 registered0)) 3) = ''c''
   \<and> resources (snd (add 3 registered0)) = resources registered0
   \<and> trace (snd (add 3 registered0)) = trace registered0 @ [ConsoleWarn ''[Resource.Manager.add]:'']"
proof -
  have dup: "stored registered0 (type (heap registered0 3))
                (name (deriveName (heap registered0 3))) = Some 0"
    by (simp add: registered0_facts)
  have before: "name (heap registered0 3) = ''unknown''"
    by (simp add: registered0_facts)
  show ?thesis
    using add_rejected_mutates_argument [OF dup, of "''x/c.jpg''"] before
    by (simp add: registered0_facts)
qed

end
